theory Spec2Isabelle
  imports Complex_Main "HOL-Library.Char_ord" "HOL-Library.List_Lexorder"
begin

section \<open>Values and errors\<close>

text \<open>
  The pipeline moves three kinds of values through pandas cells and Python dictionaries:
  Python's \<^verbatim>\<open>None\<close>, the float \<^verbatim>\<open>NaN\<close> that pandas stores for a missing number, and
  finite numbers.  Finite numbers are modelled as reals (rounding and overflow of the
  machine floats are left out); the integers the scenarios use are exact in both.
\<close>

datatype pyval = PyNone | NaN | Num real

datatype error = TypeError | IndexError | KeyError | ValueError

text \<open>
  Python's \<^verbatim>\<open>x <= c\<close> and \<^verbatim>\<open>x > c\<close> against a number \<open>c\<close>: \<^verbatim>\<open>None\<close> raises
  \<^verbatim>\<open>TypeError\<close>, every comparison with \<^verbatim>\<open>NaN\<close> is false.
\<close>

fun py_le :: "pyval \<Rightarrow> real \<Rightarrow> error + bool" where
  "py_le PyNone c = Inl TypeError"
| "py_le NaN c = Inr False"
| "py_le (Num v) c = Inr (v \<le> c)"

fun py_gt :: "pyval \<Rightarrow> real \<Rightarrow> error + bool" where
  "py_gt PyNone c = Inl TypeError"
| "py_gt NaN c = Inr False"
| "py_gt (Num v) c = Inr (v > c)"

text \<open>
  Python's \<^verbatim>\<open>x * k\<close> for a positive integer weight \<open>k\<close> and \<^verbatim>\<open>a + b\<close> on cell values:
  \<^verbatim>\<open>None\<close> raises \<^verbatim>\<open>TypeError\<close>, \<^verbatim>\<open>NaN\<close> propagates.
\<close>

fun py_mul :: "pyval \<Rightarrow> real \<Rightarrow> error + pyval" where
  "py_mul PyNone k = Inl TypeError"
| "py_mul NaN k = Inr NaN"
| "py_mul (Num v) k = Inr (Num (v * k))"

fun py_add :: "pyval \<Rightarrow> pyval \<Rightarrow> error + pyval" where
  "py_add PyNone b = Inl TypeError"
| "py_add a PyNone = Inl TypeError"
| "py_add NaN b = Inr NaN"
| "py_add a NaN = Inr NaN"
| "py_add (Num a) (Num b) = Inr (Num (a + b))"

text \<open>\<^verbatim>\<open>pd.isna\<close>: both \<^verbatim>\<open>None\<close> and \<^verbatim>\<open>NaN\<close> count as missing.\<close>

fun isna :: "pyval \<Rightarrow> bool" where
  "isna PyNone = True"
| "isna NaN = True"
| "isna (Num v) = False"

section \<open>transform.py: the derived fields\<close>

text \<open>
  \<^verbatim>\<open>aqi_pm25_category(pm25)\<close>: an \<^verbatim>\<open>if\<close>/\<^verbatim>\<open>elif\<close> chain of \<^verbatim>\<open><=\<close> tests with a final
  \<^verbatim>\<open>else\<close>; there is no branch for a missing value.
\<close>

definition aqi_pm25_category :: "pyval \<Rightarrow> error + string" where
  "aqi_pm25_category pm25 =
     (case py_le pm25 50 of Inl e \<Rightarrow> Inl e | Inr True \<Rightarrow> Inr ''Good'' | Inr False \<Rightarrow>
     (case py_le pm25 100 of Inl e \<Rightarrow> Inl e | Inr True \<Rightarrow> Inr ''Moderate'' | Inr False \<Rightarrow>
     (case py_le pm25 200 of Inl e \<Rightarrow> Inl e | Inr True \<Rightarrow> Inr ''Unhealthy'' | Inr False \<Rightarrow>
     (case py_le pm25 300 of Inl e \<Rightarrow> Inl e | Inr True \<Rightarrow> Inr ''Very Unhealthy''
        | Inr False \<Rightarrow> Inr ''Hazardous''))))"

text \<open>\<^verbatim>\<open>risk_classification(severity)\<close>: two \<^verbatim>\<open>>\<close> tests and an \<^verbatim>\<open>else\<close>.\<close>

definition risk_classification :: "pyval \<Rightarrow> error + string" where
  "risk_classification severity =
     (case py_gt severity 400 of Inl e \<Rightarrow> Inl e | Inr True \<Rightarrow> Inr ''High Risk'' | Inr False \<Rightarrow>
     (case py_gt severity 200 of Inl e \<Rightarrow> Inl e | Inr True \<Rightarrow> Inr ''Moderate Risk''
        | Inr False \<Rightarrow> Inr ''Low Risk''))"

text \<open>The three risk labels and their order, Low < Moderate < High.\<close>

definition risk_labels :: "string list" where
  "risk_labels = [''Low Risk'', ''Moderate Risk'', ''High Risk'']"

definition risk_tier :: "string \<Rightarrow> nat" where
  "risk_tier l = (if l = ''Low Risk'' then 0 else if l = ''Moderate Risk'' then 1
                  else if l = ''High Risk'' then 2 else 3)"

section \<open>transform.py: from raw readings to records\<close>

text \<open>
  A raw file is the JSON answer of the air-quality API for one city.  Its \<^verbatim>\<open>hourly\<close> object
  holds the \<^verbatim>\<open>time\<close> array and one array per pollutant; an array element is a number or
  \<^verbatim>\<open>null\<close>.  Timestamps are taken as \<^verbatim>\<open>pd.to_datetime\<close> delivers them, with the fields of
  the ISO text; the city is the name \<^verbatim>\<open>transform_pipeline\<close> derives from the file name.
  A JSON object is an association list with distinct keys.
\<close>

record datetime =
  dt_year :: nat
  dt_month :: nat
  dt_day :: nat
  dt_hour :: nat
  dt_minute :: nat

datatype json_number = JNull | JNum real

record hourly_data =
  time_array :: "datetime list option"
  arrays :: "(string \<times> json_number list) list"

record raw_file =
  city_name :: string
  hourly :: "hourly_data option"

text \<open>
  One record of \<^verbatim>\<open>all_records\<close>: the dictionary with the keys \<^verbatim>\<open>city\<close>, \<^verbatim>\<open>time\<close> and one
  key per pollutant.  The pollutant part is a map from the key to its value.
\<close>

record raw_record =
  city :: string
  time :: datetime
  cells :: "string \<rightharpoonup> pyval"

definition pollutant_cols :: "string list" where
  "pollutant_cols = [''pm10'', ''pm2_5'', ''carbon_monoxide'', ''nitrogen_dioxide'',
     ''sulphur_dioxide'', ''ozone'', ''uv_index'']"

text \<open>Sequencing of steps that may raise: the first error ends the computation.\<close>

definition and_then :: "error + 'a \<Rightarrow> ('a \<Rightarrow> error + 'b) \<Rightarrow> error + 'b" where
  "and_then m f = (case m of Inl e \<Rightarrow> Inl e | Inr x \<Rightarrow> f x)"

fun mapM :: "('a \<Rightarrow> error + 'b) \<Rightarrow> 'a list \<Rightarrow> error + 'b list" where
  "mapM f [] = Inr []"
| "mapM f (x # xs) = and_then (f x) (\<lambda>y. and_then (mapM f xs) (\<lambda>ys. Inr (y # ys)))"

text \<open>\<^verbatim>\<open>values[i]\<close> on a Python list, for an index that is not negative.\<close>

definition py_index :: "'a list \<Rightarrow> nat \<Rightarrow> error + 'a" where
  "py_index xs i = (if i < length xs then Inr (xs ! i) else Inl IndexError)"

text \<open>\<^verbatim>\<open>pd.to_numeric\<close> on a JSON scalar: a number is returned as it is, \<^verbatim>\<open>null\<close> becomes NaN.\<close>

fun to_numeric :: "json_number \<Rightarrow> pyval" where
  "to_numeric JNull = NaN"
| "to_numeric (JNum v) = Num v"

text \<open>\<^verbatim>\<open>hourly_data.get(pollutant, [])\<close>.\<close>

definition hourly_get :: "hourly_data \<Rightarrow> string \<Rightarrow> json_number list" where
  "hourly_get h pollutant = (case map_of (arrays h) pollutant of None \<Rightarrow> [] | Some vs \<Rightarrow> vs)"

text \<open>
  The inner loop of \<^verbatim>\<open>transform_pipeline\<close> over the pollutant names:
  \<^verbatim>\<open>record[pollutant] = pd.to_numeric(values[i]) if i < len(values) else None\<close>.
\<close>

fun extract_pollutants ::
  "hourly_data \<Rightarrow> nat \<Rightarrow> string list \<Rightarrow> (string \<rightharpoonup> pyval) \<Rightarrow> error + (string \<rightharpoonup> pyval)" where
  "extract_pollutants h i [] record = Inr record"
| "extract_pollutants h i (pollutant # rest) record =
     (let values = hourly_get h pollutant in
      and_then (if i < length values then and_then (py_index values i) (\<lambda>v. Inr (to_numeric v))
                else Inr PyNone)
        (\<lambda>v. extract_pollutants h i rest (record(pollutant \<mapsto> v))))"

text \<open>The body of the loop over \<^verbatim>\<open>enumerate(times)\<close>: one record per index.\<close>

definition build_record :: "string \<Rightarrow> hourly_data \<Rightarrow> nat \<Rightarrow> datetime \<Rightarrow> error + raw_record" where
  "build_record name h i t =
     and_then (extract_pollutants h i pollutant_cols Map.empty)
       (\<lambda>cs. Inr \<lparr>city = name, time = t, cells = cs\<rparr>)"

text \<open>
  One raw file: \<^verbatim>\<open>data.get("hourly", {})\<close>, the \<^verbatim>\<open>continue\<close> on an empty object, then the
  loop over \<^verbatim>\<open>hourly_data.get("time", [])\<close>.
\<close>

definition file_records :: "raw_file \<Rightarrow> error + raw_record list" where
  "file_records f =
     (let h = (case hourly f of None \<Rightarrow> \<lparr>time_array = None, arrays = []\<rparr> | Some h \<Rightarrow> h) in
      if time_array h = None \<and> arrays h = [] then Inr []
      else
        let times = (case time_array h of None \<Rightarrow> [] | Some ts \<Rightarrow> ts) in
        mapM (\<lambda>(i, t). build_record (city_name f) h i t) (enumerate 0 times))"

text \<open>The outer loop over the raw files, appending to \<^verbatim>\<open>all_records\<close>.\<close>

fun collect_records :: "raw_file list \<Rightarrow> error + raw_record list" where
  "collect_records [] = Inr []"
| "collect_records (f # fs) =
     and_then (file_records f) (\<lambda>rs. and_then (collect_records fs) (\<lambda>rest. Inr (rs @ rest)))"

section \<open>transform.py: the data frame and the derived columns\<close>

text \<open>
  \<^verbatim>\<open>pd.DataFrame(all_records)\<close> infers one type per column.  A column that holds nothing but
  \<^verbatim>\<open>None\<close> keeps its \<^verbatim>\<open>None\<close> objects; in every other column a \<^verbatim>\<open>None\<close> becomes NaN.
  Every record carries the same seven pollutant keys, so a key is never missing in a row.
\<close>

definition object_column :: "raw_record list \<Rightarrow> string \<Rightarrow> bool" where
  "object_column recs p = list_all (\<lambda>r. cells r p = Some PyNone) recs"

definition DataFrame :: "raw_record list \<Rightarrow> raw_record list" where
  "DataFrame recs =
     map (\<lambda>r. r\<lparr>cells := (\<lambda>p. map_option
            (\<lambda>v. if v = PyNone \<and> \<not> object_column recs p then NaN else v) (cells r p))\<rparr>) recs"

text \<open>
  \<^verbatim>\<open>row.get(key, default)\<close> on a row of the frame (a pandas Series): the stored value when
  the label exists, whatever it is, and the default only when the label does not exist.
\<close>

definition series_get :: "(string \<rightharpoonup> pyval) \<Rightarrow> string \<Rightarrow> pyval \<Rightarrow> pyval" where
  "series_get row key dflt = (case row key of None \<Rightarrow> dflt | Some v \<Rightarrow> v)"

text \<open>
  \<^verbatim>\<open>df.dropna(subset=pollutant_cols, how="all")\<close>: a row goes when every listed cell is
  missing.  A frame built from no record has no column, and \<^verbatim>\<open>dropna\<close> raises
  \<^verbatim>\<open>KeyError\<close> for the columns of \<^verbatim>\<open>subset\<close> it does not find.
\<close>

definition all_missing :: "string list \<Rightarrow> raw_record \<Rightarrow> bool" where
  "all_missing cols r = list_all (\<lambda>p. isna (series_get (cells r) p NaN)) cols"

definition dropna_all :: "string list \<Rightarrow> raw_record list \<Rightarrow> error + raw_record list" where
  "dropna_all cols df =
     (if df = [] then Inl KeyError else Inr (filter (\<lambda>r. \<not> all_missing cols r) df))"

text \<open>
  \<^verbatim>\<open>compute_severity(row)\<close>: the weighted sum, evaluated left to right as Python does.
\<close>

definition compute_severity :: "(string \<rightharpoonup> pyval) \<Rightarrow> error + pyval" where
  "compute_severity row =
     and_then (py_mul (series_get row ''pm2_5'' (Num 0)) 5) (\<lambda>t1.
     and_then (py_mul (series_get row ''pm10'' (Num 0)) 3) (\<lambda>t2.
     and_then (py_add t1 t2) (\<lambda>s2.
     and_then (py_mul (series_get row ''nitrogen_dioxide'' (Num 0)) 4) (\<lambda>t3.
     and_then (py_add s2 t3) (\<lambda>s3.
     and_then (py_mul (series_get row ''sulphur_dioxide'' (Num 0)) 4) (\<lambda>t4.
     and_then (py_add s3 t4) (\<lambda>s4.
     and_then (py_mul (series_get row ''carbon_monoxide'' (Num 0)) 2) (\<lambda>t5.
     and_then (py_add s4 t5) (\<lambda>s5.
     and_then (py_mul (series_get row ''ozone'' (Num 0)) 3) (\<lambda>t6.
     py_add s5 t6))))))))))"

text \<open>A staged row: the record and its four derived columns.\<close>

record staged_row = raw_record +
  AQI_Category :: string
  Pollution_Severity :: pyval
  Risk_Level :: string
  hour :: nat

definition assemble ::
  "raw_record list \<Rightarrow> string list \<Rightarrow> pyval list \<Rightarrow> string list \<Rightarrow> staged_row list" where
  "assemble df cats sevs risks =
     map (\<lambda>(r, c, s, k). \<lparr>city = city r, time = time r, cells = cells r,
            AQI_Category = c, Pollution_Severity = s, Risk_Level = k, hour = dt_hour (time r)\<rparr>)
       (zip df (zip cats (zip sevs risks)))"

text \<open>
  \<^verbatim>\<open>transform_pipeline\<close>: the frame, \<^verbatim>\<open>dropna\<close>, then one derived column after the other,
  each by \<^verbatim>\<open>apply\<close> over all rows.  The result is the frame that is written to the staged
  file and returned.
\<close>

definition transform_pipeline :: "raw_file list \<Rightarrow> error + staged_row list" where
  "transform_pipeline files =
     and_then (collect_records files) (\<lambda>all_records.
     and_then (dropna_all pollutant_cols (DataFrame all_records)) (\<lambda>df.
     and_then (mapM aqi_pm25_category (map (\<lambda>r. series_get (cells r) ''pm2_5'' NaN) df)) (\<lambda>cats.
     and_then (mapM compute_severity (map cells df)) (\<lambda>sevs.
     and_then (mapM risk_classification sevs) (\<lambda>risks.
     Inr (assemble df cats sevs risks))))))"

section \<open>load.py: the batched insert\<close>

text \<open>
  \<^verbatim>\<open>range(start, stop, step)\<close>: the values \<open>start\<close>, \<open>start + step\<close>, ... before \<open>stop\<close>;
  a step of zero raises \<^verbatim>\<open>ValueError\<close>.
\<close>

function range_up :: "int \<Rightarrow> int \<Rightarrow> int \<Rightarrow> int list" where
  "range_up i stop step = (if 0 < step \<and> i < stop then i # range_up (i + step) stop step else [])"
  by pat_completeness auto
termination
  by (relation "measure (\<lambda>(i, stop, step). nat (stop - i))") auto

function range_down :: "int \<Rightarrow> int \<Rightarrow> int \<Rightarrow> int list" where
  "range_down i stop step = (if step < 0 \<and> stop < i then i # range_down (i + step) stop step else [])"
  by pat_completeness auto
termination
  by (relation "measure (\<lambda>(i, stop, step). nat (i - stop))") auto

definition py_range :: "int \<Rightarrow> int \<Rightarrow> int \<Rightarrow> error + int list" where
  "py_range start stop step =
     (if step = 0 then Inl ValueError
      else if 0 < step then Inr (range_up start stop step)
      else Inr (range_down start stop step))"

text \<open>
  \<^verbatim>\<open>xs[i:j]\<close>: a negative bound counts from the end, both bounds are clipped to the list,
  and the slice is empty when the bounds cross.
\<close>

definition slice_bound :: "nat \<Rightarrow> int \<Rightarrow> nat" where
  "slice_bound n k = (if k < 0 then nat (max 0 (int n + k)) else min (nat k) n)"

definition py_slice :: "'a list \<Rightarrow> int \<Rightarrow> int \<Rightarrow> 'a list" where
  "py_slice xs i j =
     (let lo = slice_bound (length xs) i; hi = slice_bound (length xs) j
      in take (hi - lo) (drop lo xs))"

text \<open>
  The remote store is outside the program.  One call of
  \<^verbatim>\<open>supabase.table(TABLE_NAME).insert(batch).execute()\<close> either returns a response without
  an error, returns a response whose \<^verbatim>\<open>error\<close> attribute is set, or raises.  The store is a
  function from the number of calls made so far to the outcome of the next call, so that
  every sequence of outcomes is covered.  The loader's effects (calls, sleeps, printed
  lines) are recorded in order; a call is tagged with its place in the code, the first
  \<^verbatim>\<open>insert\<close> of the \<^verbatim>\<open>try\<close> block or the one after \<^verbatim>\<open>sleep(3)\<close>.
\<close>

datatype outcome = Inserted | ErrorResponse | Raised

datatype attempt = First | Retry

datatype message =
    Loading nat int
  | Insert_failed int
  | Retrying
  | Retry_success
  | Inserted_batch int
  | Retry_failed
  | Load_complete

datatype 'r event = Insert attempt "'r list" | Sleep nat | Print message

record 'r loader_state =
  calls :: nat
  events :: "'r event list"

definition insert_call ::
  "(nat \<Rightarrow> outcome) \<Rightarrow> attempt \<Rightarrow> 'r list \<Rightarrow> 'r loader_state \<Rightarrow> outcome \<times> 'r loader_state" where
  "insert_call store a batch s =
     (store (calls s), s\<lparr>calls := Suc (calls s), events := events s @ [Insert a batch]\<rparr>)"

definition say :: "message \<Rightarrow> 'r loader_state \<Rightarrow> 'r loader_state" where
  "say m s = s\<lparr>events := events s @ [Print m]\<rparr>"

definition sleep :: "nat \<Rightarrow> 'r loader_state \<Rightarrow> 'r loader_state" where
  "sleep n s = s\<lparr>events := events s @ [Sleep n]\<rparr>"

text \<open>
  The body of the loop in \<^verbatim>\<open>load_to_supabase\<close> for one batch: the \<^verbatim>\<open>try\<close> block with the
  first insert, the retry under \<^verbatim>\<open>if hasattr(res, "error") and res.error\<close>, and the
  \<^verbatim>\<open>except Exception\<close> handler that prints and continues.
\<close>

definition load_batch ::
  "(nat \<Rightarrow> outcome) \<Rightarrow> int \<Rightarrow> int \<Rightarrow> 'r list \<Rightarrow> 'r loader_state \<Rightarrow> 'r loader_state" where
  "load_batch store i batch_size batch s =
     (case insert_call store First batch s of
        (Raised, s1) \<Rightarrow> say Retry_failed s1
      | (ErrorResponse, s1) \<Rightarrow>
          (let s2 = sleep 3 (say Retrying (say (Insert_failed (i div batch_size + 1)) s1)) in
           case insert_call store Retry batch s2 of
             (Raised, s3) \<Rightarrow> say Retry_failed s3
           | (_, s3) \<Rightarrow> say Retry_success s3)
      | (Inserted, s1) \<Rightarrow> say (Inserted_batch (i div batch_size + 1)) s1)"

fun load_loop ::
  "(nat \<Rightarrow> outcome) \<Rightarrow> 'r list \<Rightarrow> int \<Rightarrow> int list \<Rightarrow> 'r loader_state \<Rightarrow> 'r loader_state" where
  "load_loop store records batch_size [] s = s"
| "load_loop store records batch_size (i # rest) s =
     load_loop store records batch_size rest
       (load_batch store i batch_size (py_slice records i (i + batch_size)) s)"

text \<open>
  \<^verbatim>\<open>load_to_supabase\<close>, from the records of the staged file on:
  \<^verbatim>\<open>for i in range(0, total, batch_size): batch = records[i:i + batch_size]\<close>.
\<close>

definition load_to_supabase ::
  "(nat \<Rightarrow> outcome) \<Rightarrow> 'r list \<Rightarrow> int \<Rightarrow> error + 'r loader_state" where
  "load_to_supabase store records batch_size =
     (let total = length records;
          s0 = say (Loading total batch_size) \<lparr>calls = 0, events = []\<rparr>
      in and_then (py_range 0 (int total) batch_size)
           (\<lambda>starts. Inr (say Load_complete (load_loop store records batch_size starts s0))))"

text \<open>Reading the record of effects: the batches handed to the insert at each place.\<close>

fun inserts :: "attempt \<Rightarrow> 'r event list \<Rightarrow> 'r list list" where
  "inserts a [] = []"
| "inserts a (Insert b batch # es) = (if a = b then batch # inserts a es else inserts a es)"
| "inserts a (e # es) = inserts a es"

section \<open>etl\_analysis.py: the city with the highest mean\<close>

text \<open>
  The rows read back from the store, with the three columns the two selections of
  \<^verbatim>\<open>compute_kpis\<close> use.  A stored number that is null arrives as a missing value.
\<close>

record stored_row =
  row_city :: string
  row_pm2_5 :: pyval
  row_severity_score :: pyval

text \<open>\<^verbatim>\<open>Series.mean()\<close> skips missing values; the mean of no value is NaN.\<close>

fun present :: "pyval list \<Rightarrow> real list" where
  "present [] = []"
| "present (Num v # vs) = v # present vs"
| "present (v # vs) = present vs"

definition mean_skipna :: "pyval list \<Rightarrow> pyval" where
  "mean_skipna vs =
     (let xs = present vs in if xs = [] then NaN else Num (sum_list xs / real (length xs)))"

text \<open>
  \<^verbatim>\<open>df.groupby("city")[col].mean()\<close>: one entry per city, the cities in ascending order
  (\<^verbatim>\<open>groupby\<close> sorts its keys), each with the mean of the column over the city's rows.
\<close>

definition groupby_mean :: "(stored_row \<Rightarrow> pyval) \<Rightarrow> stored_row list \<Rightarrow> (string \<times> pyval) list" where
  "groupby_mean col df =
     map (\<lambda>c. (c, mean_skipna (map col (filter (\<lambda>r. row_city r = c) df))))
       (sort (remdups (map row_city df)))"

text \<open>\<^verbatim>\<open>.dropna()\<close> on the series of means.\<close>

fun dropna_series :: "(string \<times> pyval) list \<Rightarrow> (string \<times> real) list" where
  "dropna_series [] = []"
| "dropna_series ((k, Num v) # s) = (k, v) # dropna_series s"
| "dropna_series (x # s) = dropna_series s"

text \<open>
  \<^verbatim>\<open>.idxmax()\<close> and \<^verbatim>\<open>.max()\<close>: the label and the value of the first occurrence of the
  maximum; on an empty series \<^verbatim>\<open>idxmax\<close> raises \<^verbatim>\<open>ValueError\<close>.
\<close>

fun argmax_first :: "string \<times> real \<Rightarrow> (string \<times> real) list \<Rightarrow> string \<times> real" where
  "argmax_first best [] = best"
| "argmax_first best (x # xs) = argmax_first (if snd best < snd x then x else best) xs"

definition idxmax :: "(string \<times> real) list \<Rightarrow> error + string" where
  "idxmax s = (case s of [] \<Rightarrow> Inl ValueError | x # xs \<Rightarrow> Inr (fst (argmax_first x xs)))"

definition series_max :: "(string \<times> real) list \<Rightarrow> error + real" where
  "series_max s = (case s of [] \<Rightarrow> Inl ValueError | x # xs \<Rightarrow> Inr (snd (argmax_first x xs)))"

text \<open>
  The first two blocks of \<^verbatim>\<open>compute_kpis\<close>: the four metrics of the city with the highest
  mean PM2.5 and the city with the highest mean severity, \<^verbatim>\<open>None\<close> when the series is
  empty.
\<close>

record kpis =
  city_highest_avg_pm2_5 :: "string option"
  highest_avg_pm2_5_value :: "real option"
  city_highest_severity :: "string option"
  highest_severity_value :: "real option"

definition compute_kpis :: "stored_row list \<Rightarrow> error + kpis" where
  "compute_kpis df =
     (let pm25_by_city = dropna_series (groupby_mean row_pm2_5 df);
          sev_by_city = dropna_series (groupby_mean row_severity_score df)
      in
      and_then (if pm25_by_city \<noteq> []
                then and_then (idxmax pm25_by_city) (\<lambda>c.
                     and_then (series_max pm25_by_city) (\<lambda>m. Inr (Some c, Some m)))
                else Inr (None, None)) (\<lambda>(c1, m1).
      and_then (if sev_by_city \<noteq> []
                then and_then (idxmax sev_by_city) (\<lambda>c.
                     and_then (series_max sev_by_city) (\<lambda>m. Inr (Some c, Some m)))
                else Inr (None, None)) (\<lambda>(c2, m2).
      Inr \<lparr>city_highest_avg_pm2_5 = c1, highest_avg_pm2_5_value = m1,
           city_highest_severity = c2, highest_severity_value = m2\<rparr>)))"

section \<open>Notions used to state the properties\<close>

text \<open>
  The value the inner loop stores under pollutant \<open>p\<close> for index \<open>i\<close>: the \<open>i\<close>-th element of
  the pollutant's array when there is one, \<^verbatim>\<open>None\<close> otherwise.
\<close>

definition cell_at :: "hourly_data \<Rightarrow> nat \<Rightarrow> string \<Rightarrow> pyval" where
  "cell_at h i p =
     (if i < length (hourly_get h p) then to_numeric (hourly_get h p ! i) else PyNone)"

text \<open>A cell of a row is missing.\<close>

definition missing :: "(string \<rightharpoonup> pyval) \<Rightarrow> string \<Rightarrow> bool" where
  "missing row p = isna (series_get row p NaN)"


text \<open>
  A staged row \<open>s\<close> carries the record \<open>r\<close> and the four columns derived from it, each by
  the function \<^verbatim>\<open>transform_pipeline\<close> applies.
\<close>

definition derived_from :: "raw_record \<Rightarrow> staged_row \<Rightarrow> bool" where
  "derived_from r s \<longleftrightarrow>
     city s = city r \<and> time s = time r \<and> cells s = cells r \<and>
     aqi_pm25_category (series_get (cells r) ''pm2_5'' NaN) = Inr (AQI_Category s) \<and>
     compute_severity (cells r) = Inr (Pollution_Severity s) \<and>
     risk_classification (Pollution_Severity s) = Inr (Risk_Level s) \<and>
     hour s = dt_hour (time r)"

section \<open>Example inputs\<close>

definition midnight :: datetime where
  "midnight = \<lparr>dt_year = 2024, dt_month = 1, dt_day = 1, dt_hour = 0, dt_minute = 0\<rparr>"

definition one_oclock :: datetime where
  "one_oclock = \<lparr>dt_year = 2024, dt_month = 1, dt_day = 1, dt_hour = 1, dt_minute = 0\<rparr>"

text \<open>
  An hourly object of two hours in which the \<^verbatim>\<open>pm2_5\<close> array is one element short, the
  \<^verbatim>\<open>uv_index\<close> array holds \<^verbatim>\<open>null\<close>s and four pollutant arrays are absent.
\<close>

definition short_hourly :: hourly_data where
  "short_hourly = \<lparr>time_array = Some [midnight, one_oclock],
     arrays = [(''pm2_5'', [JNum 40]), (''ozone'', [JNum 3, JNum 7]),
               (''uv_index'', [JNull, JNull])]\<rparr>"

text \<open>
  The scenario of two hours with \<^verbatim>\<open>pm2_5 = [40, 120]\<close> and every other pollutant
  \<^verbatim>\<open>null\<close>.
\<close>

definition scenario_file :: raw_file where
  "scenario_file = \<lparr>city_name = ''Delhi'', hourly = Some \<lparr>time_array = Some [midnight, one_oclock],
     arrays = [(''pm10'', [JNull, JNull]), (''pm2_5'', [JNum 40, JNum 120]),
       (''carbon_monoxide'', [JNull, JNull]), (''nitrogen_dioxide'', [JNull, JNull]),
       (''sulphur_dioxide'', [JNull, JNull]), (''ozone'', [JNull, JNull]),
       (''uv_index'', [JNull, JNull])]\<rparr>\<rparr>"

text \<open>
  Two hours without any PM2.5 reading; the second hour has no reading at all.
\<close>

definition mixed_file :: raw_file where
  "mixed_file = \<lparr>city_name = ''Delhi'', hourly = Some \<lparr>time_array = Some [midnight, one_oclock],
     arrays = [(''pm10'', [JNum 10, JNull]), (''pm2_5'', [JNull, JNull]),
       (''carbon_monoxide'', [JNum 100, JNull]), (''nitrogen_dioxide'', [JNum 5, JNull]),
       (''sulphur_dioxide'', [JNum 2, JNull]), (''ozone'', [JNum 30, JNull]),
       (''uv_index'', [JNull, JNull])]\<rparr>\<rparr>"

text \<open>
  Two hours; the only reading is the UV index of the second hour.
\<close>

definition uv_only_file :: raw_file where
  "uv_only_file = \<lparr>city_name = ''Mumbai'', hourly = Some \<lparr>time_array = Some [midnight, one_oclock],
     arrays = [(''pm10'', [JNull, JNull]), (''pm2_5'', [JNull, JNull]),
       (''carbon_monoxide'', [JNull, JNull]), (''nitrogen_dioxide'', [JNull, JNull]),
       (''sulphur_dioxide'', [JNull, JNull]), (''ozone'', [JNull, JNull]),
       (''uv_index'', [JNull, JNum 3])]\<rparr>\<rparr>"

text \<open>
  City \<open>c\<close> is the first maximum of a series of (city, mean) entries: it carries the
  greatest mean, and among the cities with that mean it is the least in the order of the
  names (the order of Python's strings, character by character).
\<close>

definition first_max :: "(string \<times> real) list \<Rightarrow> string \<Rightarrow> bool" where
  "first_max s c \<longleftrightarrow>
     (\<exists>m. (c, m) \<in> set s \<and> (\<forall>(c', m')\<in>set s. m' \<le> m \<and> (m' = m \<longrightarrow> c \<le> c')))"

text \<open>Two cities with one row each and the same PM2.5 of 50, hence the same severity.\<close>

definition tie_rows :: "stored_row list" where
  "tie_rows = [\<lparr>row_city = ''Mumbai'', row_pm2_5 = Num 50, row_severity_score = Num 250\<rparr>,
               \<lparr>row_city = ''Delhi'', row_pm2_5 = Num 50, row_severity_score = Num 250\<rparr>]"


section \<open>Sequencing\<close>

lemma and_then_simps [simp]:
  "and_then (Inl e) f = Inl e"
  "and_then (Inr x) f = f x"
  by (simp_all add: and_then_def)

lemma and_then_Inr_iff: "and_then m f = Inr y \<longleftrightarrow> (\<exists>x. m = Inr x \<and> f x = Inr y)"
  by (cases m) simp_all

lemma mapM_Inr_iff: "mapM f xs = Inr ys \<longleftrightarrow> list_all2 (\<lambda>x y. f x = Inr y) xs ys"
proof (induction xs arbitrary: ys)
  case Nil
  show ?case by auto
next
  case (Cons x xs)
  show ?case
    by (cases ys) (auto simp: and_then_Inr_iff Cons.IH)
qed

lemma mapM_total:
  "(\<And>x. x \<in> set xs \<Longrightarrow> \<exists>y. f x = Inr y) \<Longrightarrow> \<exists>ys. mapM f xs = Inr ys \<and> length ys = length xs"
proof (induction xs)
  case Nil
  show ?case by simp
next
  case (Cons x xs)
  then obtain y ys where "f x = Inr y" "mapM f xs = Inr ys" "length ys = length xs"
    by (metis list.set_intros(1) list.set_intros(2))
  then show ?case by simp
qed

section \<open>Properties of the risk classification\<close>

lemma risk_classification_Num:
  "risk_classification (Num s) =
     Inr (if s > 400 then ''High Risk'' else if s > 200 then ''Moderate Risk'' else ''Low Risk'')"
  by (simp add: risk_classification_def)

lemma risk_classification_NaN: "risk_classification NaN = Inr ''Low Risk''"
  by (simp add: risk_classification_def)

text \<open>
  C6.  At the thresholds the comparisons are strict: severity 400 is "Moderate Risk" and
  401 is "High Risk"; severity 200 is "Low Risk" and 201 is "Moderate Risk".
\<close>

theorem risk_classification_boundaries:
  "risk_classification (Num 400) = Inr ''Moderate Risk'' \<and>
   risk_classification (Num 400) \<noteq> Inr ''High Risk'' \<and>
   risk_classification (Num 401) = Inr ''High Risk'' \<and>
   risk_classification (Num 200) = Inr ''Low Risk'' \<and>
   risk_classification (Num 201) = Inr ''Moderate Risk''"
  by (simp add: risk_classification_Num)

text \<open>
  C10.  The classification is monotone: for numbers \<open>s1 \<le> s2\<close> the tier of \<open>s1\<close> is at most
  the tier of \<open>s2\<close> in the order Low < Moderate < High, and whatever the severity, a label
  that is returned is one of the three.
\<close>

theorem risk_classification_monotone:
  assumes "s1 \<le> s2"
  shows "(\<exists>l1 l2. risk_classification (Num s1) = Inr l1 \<and> risk_classification (Num s2) = Inr l2 \<and>
            risk_tier l1 \<le> risk_tier l2) \<and>
         (\<forall>s l. risk_classification s = Inr l \<longrightarrow> l \<in> set risk_labels)"
proof
  show "\<exists>l1 l2. risk_classification (Num s1) = Inr l1 \<and> risk_classification (Num s2) = Inr l2 \<and>
            risk_tier l1 \<le> risk_tier l2"
    using assms by (simp add: risk_classification_Num risk_tier_def)
  show "\<forall>s l. risk_classification s = Inr l \<longrightarrow> l \<in> set risk_labels"
  proof (intro allI impI)
    fix s l assume r: "risk_classification s = Inr l"
    show "l \<in> set risk_labels"
    proof (cases s)
      case PyNone
      with r show ?thesis
        by (simp add: risk_classification_def)
    next
      case NaN
      with r show ?thesis
        by (simp add: risk_classification_NaN risk_labels_def)
    next
      case (Num v)
      with r show ?thesis
        by (auto simp: risk_classification_Num risk_labels_def split: if_splits)
    qed
  qed
qed

theorem risk_classification_monotone_witness:
  "(400::real) \<le> 401 \<and>
   risk_classification (Num 400) = Inr ''Moderate Risk'' \<and>
   risk_classification (Num 401) = Inr ''High Risk'' \<and>
   risk_tier ''Moderate Risk'' \<le> risk_tier ''High Risk'' \<and>
   ''High Risk'' \<in> set risk_labels"
proof -
  have h: "(400::real) \<le> 401" by simp
  from risk_classification_monotone [OF h]
  obtain l1 l2 where l: "risk_classification (Num 400) = Inr l1"
      "risk_classification (Num 401) = Inr l2" "risk_tier l1 \<le> risk_tier l2"
    and labels: "\<forall>s l. risk_classification s = Inr l \<longrightarrow> l \<in> set risk_labels"
    by blast
  have "l1 = ''Moderate Risk''" "l2 = ''High Risk''"
    using l by (simp_all add: risk_classification_Num)
  with l labels h show ?thesis by blast
qed

section \<open>Record construction\<close>

lemma extract_pollutants_eq:
  "extract_pollutants h i ps m =
     Inr (\<lambda>p. if p \<in> set ps then Some (cell_at h i p) else m p)"
  by (induction ps arbitrary: m)
     (auto simp: py_index_def Let_def fun_eq_iff cell_at_def)

lemma build_record_eq:
  "build_record name h i t =
     Inr \<lparr>city = name, time = t,
          cells = (\<lambda>p. if p \<in> set pollutant_cols then Some (cell_at h i p) else None)\<rparr>"
  by (simp add: build_record_def extract_pollutants_eq)

lemma file_records_total: "\<exists>rs. file_records f = Inr rs"
proof -
  have "\<exists>rs. mapM (\<lambda>(i, t). build_record name h i t) xs = Inr rs \<and> length rs = length xs" for name h xs
    by (rule mapM_total) (auto simp: build_record_eq)
  then have "\<exists>rs. mapM (\<lambda>(i, t). build_record name h i t) xs = Inr rs" for name h xs
    by blast
  then show ?thesis
    by (simp add: file_records_def Let_def)
qed

lemma hourly_get_absent: "map_of (arrays h) p = None \<Longrightarrow> hourly_get h p = []"
  by (simp add: hourly_get_def)

text \<open>
  C9.  Building the record for index \<open>i\<close> never raises, whatever the hourly object and the
  index: a pollutant whose array is absent, or has no element \<open>i\<close>, gets \<^verbatim>\<open>None\<close>, and
  otherwise the converted \<open>i\<close>-th element; the read \<^verbatim>\<open>values[i]\<close> is only made inside the
  array.  The loop over the timestamps of a file therefore returns its records.
\<close>

theorem record_construction_total:
  "(\<exists>r. build_record name h i t = Inr r \<and> city r = name \<and> time r = t \<and>
      (\<forall>p\<in>set pollutant_cols.
         (map_of (arrays h) p = None \<or> length (hourly_get h p) \<le> i \<longrightarrow> cells r p = Some PyNone) \<and>
         (i < length (hourly_get h p) \<longrightarrow> cells r p = Some (to_numeric (hourly_get h p ! i))))) \<and>
   (\<exists>rs. file_records f = Inr rs)"
proof
  show "\<exists>r. build_record name h i t = Inr r \<and> city r = name \<and> time r = t \<and>
      (\<forall>p\<in>set pollutant_cols.
         (map_of (arrays h) p = None \<or> length (hourly_get h p) \<le> i \<longrightarrow> cells r p = Some PyNone) \<and>
         (i < length (hourly_get h p) \<longrightarrow> cells r p = Some (to_numeric (hourly_get h p ! i))))"
    by (auto simp: build_record_eq cell_at_def hourly_get_absent)
  show "\<exists>rs. file_records f = Inr rs"
    by (rule file_records_total)
qed

theorem record_construction_total_witness:
  "\<exists>r. build_record ''Delhi'' short_hourly 1 one_oclock = Inr r \<and>
     cells r ''pm10'' = Some PyNone \<and> cells r ''pm2_5'' = Some PyNone \<and>
     cells r ''ozone'' = Some (Num 7) \<and> cells r ''uv_index'' = Some NaN"
proof -
  from record_construction_total [of "''Delhi''" short_hourly 1 one_oclock]
  obtain r where r: "build_record ''Delhi'' short_hourly 1 one_oclock = Inr r"
    and c: "\<forall>p\<in>set pollutant_cols.
         (map_of (arrays short_hourly) p = None \<or> length (hourly_get short_hourly p) \<le> 1 \<longrightarrow>
            cells r p = Some PyNone) \<and>
         (1 < length (hourly_get short_hourly p) \<longrightarrow>
            cells r p = Some (to_numeric (hourly_get short_hourly p ! 1)))"
    by blast
  have "cells r ''pm10'' = Some PyNone"
    using c [rule_format, of "''pm10''"] by (simp add: pollutant_cols_def short_hourly_def)
  moreover have "cells r ''pm2_5'' = Some PyNone"
    using c [rule_format, of "''pm2_5''"]
    by (simp add: pollutant_cols_def short_hourly_def hourly_get_def)
  moreover have "cells r ''ozone'' = Some (Num 7)"
    using c [rule_format, of "''ozone''"]
    by (simp add: pollutant_cols_def short_hourly_def hourly_get_def)
  moreover have "cells r ''uv_index'' = Some NaN"
    using c [rule_format, of "''uv_index''"]
    by (simp add: pollutant_cols_def short_hourly_def hourly_get_def)
  ultimately show ?thesis using r by blast
qed

section \<open>The staged rows\<close>

lemma assemble_derived:
  assumes "list_all2 (\<lambda>x c. aqi_pm25_category x = Inr c)
             (map (\<lambda>r. series_get (cells r) ''pm2_5'' NaN) df) cats"
    and "list_all2 (\<lambda>x s. compute_severity x = Inr s) (map cells df) sevs"
    and "list_all2 (\<lambda>s k. risk_classification s = Inr k) sevs risks"
  shows "list_all2 derived_from df (assemble df cats sevs risks)"
  using assms
  by (auto simp: list_all2_conv_all_nth assemble_def derived_from_def)

lemma transform_pipeline_Inr:
  assumes "transform_pipeline files = Inr out"
  shows "\<exists>recs. collect_records files = Inr recs \<and> recs \<noteq> [] \<and>
           list_all2 derived_from
             (filter (\<lambda>r. \<not> all_missing pollutant_cols r) (DataFrame recs)) out"
proof -
  from assms obtain recs df cats sevs risks where
    recs: "collect_records files = Inr recs"
    and df: "dropna_all pollutant_cols (DataFrame recs) = Inr df"
    and cats: "mapM aqi_pm25_category (map (\<lambda>r. series_get (cells r) ''pm2_5'' NaN) df) = Inr cats"
    and sevs: "mapM compute_severity (map cells df) = Inr sevs"
    and risks: "mapM risk_classification sevs = Inr risks"
    and out: "out = assemble df cats sevs risks"
    unfolding transform_pipeline_def and_then_Inr_iff by auto
  from df have ne: "recs \<noteq> []"
    and dfeq: "df = filter (\<lambda>r. \<not> all_missing pollutant_cols r) (DataFrame recs)"
    by (auto simp: dropna_all_def DataFrame_def split: if_splits)
  have "list_all2 derived_from df out"
    unfolding out using cats sevs risks
    by (intro assemble_derived) (simp_all add: mapM_Inr_iff)
  with recs ne dfeq show ?thesis by blast
qed















text \<open>
  C2.  The category function has no branch for a missing PM2.5.  On a row whose
  \<^verbatim>\<open>pm2_5\<close> is missing every \<^verbatim>\<open><=\<close> test fails and the chain ends in its \<^verbatim>\<open>else\<close>: the
  staged category is "Hazardous", not the "Good" of PM2.5 = 0.
\<close>

theorem null_pm25_category_counterexample:
  "map_sum id (map (\<lambda>s. missing (cells s) ''pm2_5'')) (transform_pipeline [mixed_file]) = Inr [True] \<and>
   map_sum id (map AQI_Category) (transform_pipeline [mixed_file]) = Inr [''Hazardous''] \<and>
   aqi_pm25_category (Num 0) = Inr ''Good''"
  by code_simp

text \<open>
  C2, as the code has it: in every staged row whose \<^verbatim>\<open>pm2_5\<close> is missing the derived
  category is "Hazardous".
\<close>

theorem null_pm25_is_hazardous:
  assumes "transform_pipeline files = Inr out" and "s \<in> set out"
    and "missing (cells s) ''pm2_5''"
  shows "AQI_Category s = ''Hazardous''"
proof -
  from transform_pipeline_Inr [OF assms(1)] obtain df where "list_all2 derived_from df out"
    by blast
  with assms(2) obtain r where "derived_from r s"
    by (auto simp: in_set_conv_nth list_all2_conv_all_nth)
  then have c: "aqi_pm25_category (series_get (cells s) ''pm2_5'' NaN) = Inr (AQI_Category s)"
    by (simp add: derived_from_def)
  show ?thesis
  proof (cases "series_get (cells s) ''pm2_5'' NaN")
    case PyNone
    with c show ?thesis by (simp add: aqi_pm25_category_def)
  next
    case NaN
    with c show ?thesis by (simp add: aqi_pm25_category_def)
  next
    case (Num v)
    with assms(3) show ?thesis by (simp add: missing_def)
  qed
qed

theorem null_pm25_is_hazardous_witness:
  "\<exists>out s. transform_pipeline [mixed_file] = Inr out \<and> s \<in> set out \<and>
     missing (cells s) ''pm2_5'' \<and> AQI_Category s = ''Hazardous''"
proof -
  have "case transform_pipeline [mixed_file] of Inl e \<Rightarrow> False | Inr out \<Rightarrow>
          length out = 1 \<and> missing (cells (hd out)) ''pm2_5''"
    by code_simp
  then obtain out where o: "transform_pipeline [mixed_file] = Inr out"
    and l: "length out = 1" and m: "missing (cells (hd out)) ''pm2_5''"
    by (auto split: sum.splits)
  from l have i: "hd out \<in> set out"
    by (cases out) simp_all
  from null_pm25_is_hazardous [OF o i m] o i m show ?thesis by blast
qed

text \<open>
  C3.  The scenario of two hours with \<^verbatim>\<open>pm2_5 = [40, 120]\<close> and every other pollutant
  \<^verbatim>\<open>null\<close> does not give the categories, severities and risks of the claim: 120 lies above
  100, so the second category is "Unhealthy".
\<close>

theorem scenario_counterexample:
  "\<not> (map_sum id (map AQI_Category) (transform_pipeline [scenario_file]) = Inr [''Good'', ''Moderate''] \<and>
      map_sum id (map Pollution_Severity) (transform_pipeline [scenario_file]) = Inr [Num 200, Num 600] \<and>
      map_sum id (map Risk_Level) (transform_pipeline [scenario_file]) = Inr [''Low Risk'', ''High Risk''] \<and>
      map_sum id (map hour) (transform_pipeline [scenario_file]) = Inr [0, 1])"
proof -
  have "map_sum id (map AQI_Category) (transform_pipeline [scenario_file]) = Inr [''Good'', ''Unhealthy'']"
    by code_simp
  then show ?thesis by simp
qed

text \<open>
  C3, as the code has it: the scenario yields exactly two rows, with the categories
  "Good" and "Unhealthy" and the hours 0 and 1.
\<close>

theorem scenario_categories_and_hours:
  "map_sum id length (transform_pipeline [scenario_file]) = Inr 2 \<and>
   map_sum id (map AQI_Category) (transform_pipeline [scenario_file]) = Inr [''Good'', ''Unhealthy''] \<and>
   map_sum id (map hour) (transform_pipeline [scenario_file]) = Inr [0, 1]"
  by code_simp

section \<open>The severity score\<close>

text \<open>
  With all six weighted readings present the score is the weighted sum, and a row without
  the six labels would score 0 by the defaults of \<^verbatim>\<open>row.get\<close>.
\<close>

lemma compute_severity_present:
  assumes "row ''pm2_5'' = Some (Num a)" "row ''pm10'' = Some (Num b)"
    "row ''nitrogen_dioxide'' = Some (Num c)" "row ''sulphur_dioxide'' = Some (Num d)"
    "row ''carbon_monoxide'' = Some (Num e)" "row ''ozone'' = Some (Num f)"
  shows "compute_severity row = Inr (Num (5 * a + 3 * b + 4 * c + 4 * d + 2 * e + 3 * f))"
  using assms by (simp add: compute_severity_def series_get_def algebra_simps)

lemma compute_severity_absent_labels:
  "compute_severity Map.empty = Inr (Num 0)"
  by (simp add: compute_severity_def series_get_def)

text \<open>
  C1.  A missing reading does not contribute 0 to the score: the row of a frame carries
  every pollutant label, \<^verbatim>\<open>row.get\<close> returns the stored NaN, and the sum is NaN.  For the
  row whose only reading is the UV index the severity is NaN (with the risk "Low Risk"),
  and for \<^verbatim>\<open>pm2_5 = [40, 120]\<close> without other readings the severities are NaN and NaN.
\<close>

theorem severity_with_missing_pollutant:
  "map_sum id (map Pollution_Severity) (transform_pipeline [uv_only_file]) = Inr [NaN] \<and>
   map_sum id (map Risk_Level) (transform_pipeline [uv_only_file]) = Inr [''Low Risk''] \<and>
   map_sum id (map Pollution_Severity) (transform_pipeline [scenario_file]) = Inr [NaN, NaN] \<and>
   map_sum id (map Risk_Level) (transform_pipeline [scenario_file]) = Inr [''Low Risk'', ''Low Risk'']"
  by code_simp

section \<open>The batched load\<close>

declare range_up.simps [simp del]

lemma range_up_step:
  "0 < step \<Longrightarrow> i < stop \<Longrightarrow> range_up i stop step = i # range_up (i + step) stop step"
  by (subst range_up.simps) simp

lemma range_up_stop: "stop \<le> i \<Longrightarrow> range_up i stop step = []"
  by (subst range_up.simps) simp

lemma inserts_append: "inserts a (xs @ ys) = inserts a xs @ inserts a ys"
  by (induction a xs rule: inserts.induct) simp_all

lemma inserts_load_batch:
  "inserts First (events (load_batch store i b batch s)) = inserts First (events s) @ [batch]"
  by (simp add: load_batch_def insert_call_def say_def sleep_def inserts_append Let_def
      split: outcome.splits)

lemma inserts_load_loop:
  "inserts First (events (load_loop store records b starts s)) =
     inserts First (events s) @ map (\<lambda>i. py_slice records i (i + b)) starts"
  by (induction starts arbitrary: s) (simp_all add: inserts_load_batch)

lemma py_slice_batch:
  assumes "0 \<le> i" "0 < b"
  shows "py_slice xs i (i + b) = take (nat b) (drop (nat i) xs)"
proof -
  let ?n = "length xs"
  have lo: "slice_bound ?n i = min (nat i) ?n"
    using assms by (simp add: slice_bound_def)
  have hi: "slice_bound ?n (i + b) = min (nat i + nat b) ?n"
    using assms by (simp add: slice_bound_def nat_add_distrib)
  show ?thesis
  proof (cases "nat i + nat b \<le> ?n")
    case True
    then show ?thesis
      by (simp add: py_slice_def lo hi Let_def min_def)
  next
    case False
    then show ?thesis
      by (simp add: py_slice_def lo hi Let_def min_def)
  qed
qed

lemma concat_batches:
  "0 < b \<Longrightarrow> 0 \<le> i \<Longrightarrow>
     concat (map (\<lambda>j. py_slice xs j (j + b)) (range_up i (int (length xs)) b)) = drop (nat i) xs"
proof (induction i "int (length xs)" b rule: range_up.induct)
  case (1 i step)
  show ?case
  proof (cases "i < int (length xs)")
    case True
    have "drop (nat (i + step)) xs = drop (nat step) (drop (nat i) xs)"
      using 1(2,3) by (simp add: nat_add_distrib add.commute)
    moreover have "concat (map (\<lambda>j. py_slice xs j (j + step))
        (range_up (i + step) (int (length xs)) step)) = drop (nat (i + step)) xs"
      using 1 True by simp
    ultimately show ?thesis
      using 1(2,3) True by (simp add: range_up_step py_slice_batch del: drop_drop)
  next
    case False
    with 1 show ?thesis
      by (simp add: range_up_stop)
  qed
qed

lemma length_range_up:
  "0 < b \<Longrightarrow> length (range_up i n b) = nat ((n - i + b - 1) div b)"
proof (induction i n b rule: range_up.induct)
  case (1 i n step)
  show ?case
  proof (cases "i < n")
    case True
    have "n - i + step - 1 = (n - (i + step) + step - 1) + step"
      by simp
    then have "(n - i + step - 1) div step = (n - (i + step) + step - 1) div step + 1"
      using 1(2) by (metis div_add_self2 less_irrefl)
    moreover have "0 \<le> (n - (i + step) + step - 1) div step"
      using True 1(2) by (simp add: pos_imp_zdiv_nonneg_iff)
    moreover have "length (range_up (i + step) n step) = nat ((n - (i + step) + step - 1) div step)"
      using 1 True by simp
    ultimately show ?thesis
      using 1(2) True by (simp add: range_up_step nat_add_distrib)
  next
    case False
    then have "n - i + step - 1 < step" by simp
    then have "(n - i + step - 1) div step \<le> 0"
      using 1(2) zdiv_mono1 [of "n - i + step - 1" "step - 1" step] by simp
    with False show ?thesis
      by (simp add: range_up_stop)
  qed
qed

lemma ceiling_div:
  assumes "0 < b"
  shows "\<lceil>real_of_int n / real_of_int b\<rceil> = (n + b - 1) div b"
proof -
  define k where "k = (n + b - 1) div b"
  define r where "r = (n + b - 1) mod b"
  have eq: "k * b + r = n + b - 1"
    unfolding k_def r_def by simp
  have r: "0 \<le> r" "r < b"
    unfolding r_def using assms by simp_all
  have lo: "(k - 1) * b < n"
    using eq r by (simp add: algebra_simps)
  have hi: "n \<le> k * b"
    using eq r by (simp add: algebra_simps)
  have "real_of_int k - 1 < real_of_int n / real_of_int b"
  proof -
    have "real_of_int ((k - 1) * b) < real_of_int n"
      using lo by (simp only: of_int_less_iff)
    then have "(real_of_int k - 1) * real_of_int b < real_of_int n"
      by simp
    then show ?thesis
      using assms by (simp only: pos_less_divide_eq of_int_0_less_iff)
  qed
  moreover have "real_of_int n / real_of_int b \<le> real_of_int k"
  proof -
    have "real_of_int n \<le> real_of_int (k * b)"
      using hi by (simp only: of_int_le_iff)
    then show ?thesis
      using assms by (simp add: pos_divide_le_eq)
  qed
  ultimately have "\<lceil>real_of_int n / real_of_int b\<rceil> = k"
    by (simp add: ceiling_eq_iff)
  then show ?thesis by (simp add: k_def)
qed

text \<open>
  C7.  For a batch size \<open>B > 0\<close> and whatever the store answers, the loader hands
  \<open>\<lceil>N / B\<rceil>\<close> batches to the first insert of its loop, each of at most \<open>B\<close> rows, and
  their concatenation in the order of the calls is the sequence of the \<open>N\<close> input rows.
\<close>

theorem loader_batches_partition:
  assumes "0 < batch_size"
  shows "\<exists>s. load_to_supabase store records batch_size = Inr s \<and>
           concat (inserts First (events s)) = records \<and>
           int (length (inserts First (events s))) =
             \<lceil>real (length records) / real_of_int batch_size\<rceil> \<and>
           list_all (\<lambda>batch. int (length batch) \<le> batch_size) (inserts First (events s))"
proof -
  let ?starts = "range_up 0 (int (length records)) batch_size"
  let ?batches = "map (\<lambda>i. py_slice records i (i + batch_size)) ?starts"
  define s where "s = say Load_complete (load_loop store records batch_size ?starts
      (say (Loading (length records) batch_size) \<lparr>calls = 0, events = []\<rparr>))"
  have run: "load_to_supabase store records batch_size = Inr s"
    using assms by (simp add: load_to_supabase_def py_range_def Let_def s_def)
  have ins: "inserts First (events s) = ?batches"
    by (simp add: s_def say_def inserts_append inserts_load_loop)
  have cat: "concat ?batches = records"
    using concat_batches [OF assms, of 0 records] by simp
  have "length ?batches = nat ((int (length records) + batch_size - 1) div batch_size)"
    using length_range_up [OF assms, of 0 "int (length records)"] by simp
  moreover have "0 \<le> (int (length records) + batch_size - 1) div batch_size"
    using assms by (simp add: pos_imp_zdiv_nonneg_iff)
  ultimately have len: "int (length ?batches) =
      \<lceil>real (length records) / real_of_int batch_size\<rceil>"
    using ceiling_div [OF assms, of "int (length records)"] by simp
  have starts: "0 \<le> j" if "j \<in> set (range_up i n batch_size)" "0 \<le> i" for i j n
    using that assms
  proof (induction i n batch_size rule: range_up.induct)
    case (1 i n step)
    show ?case
    proof (cases "i < n")
      case True
      with 1 show ?thesis by (auto simp: range_up_step)
    next
      case False
      with 1 show ?thesis by (simp add: range_up_stop)
    qed
  qed
  have size: "list_all (\<lambda>batch. int (length batch) \<le> batch_size) ?batches"
    using assms starts [of _ 0 "int (length records)"]
    by (auto simp: list_all_iff py_slice_batch)
  from run ins cat len size show ?thesis by simp
qed


theorem loader_batches_partition_witness:
  "(0::int) < 3 \<and>
   (\<exists>s. load_to_supabase (\<lambda>k. Inserted) [1::nat, 2, 3, 4, 5, 6, 7] 3 = Inr s \<and>
        concat (inserts First (events s)) = [1, 2, 3, 4, 5, 6, 7] \<and>
        int (length (inserts First (events s))) = 3 \<and>
        list_all (\<lambda>batch. int (length batch) \<le> 3) (inserts First (events s)))"
proof -
  have h: "(0::int) < 3" by simp
  have c: "\<lceil>real (length [1::nat, 2, 3, 4, 5, 6, 7]) / real_of_int 3\<rceil> = 3"
    by (simp add: ceiling_eq_iff)
  from loader_batches_partition [OF h, of "\<lambda>k. Inserted" "[1::nat, 2, 3, 4, 5, 6, 7]"] c h
  show ?thesis by simp
qed

text \<open>
  The two ways a first insert fails.  When the call raises, the handler prints and the loop
  goes on: there is no sleep and no second call.  When the call returns a response with an
  error, the batch is inserted once more after \<^verbatim>\<open>sleep(3)\<close>.
\<close>

lemma load_batch_raised:
  "store (calls s) = Raised \<Longrightarrow>
     load_batch store i b batch s =
       s\<lparr>calls := Suc (calls s), events := events s @ [Insert First batch, Print Retry_failed]\<rparr>"
  by (simp add: load_batch_def insert_call_def say_def)

lemma load_batch_error_response:
  "store (calls s) = ErrorResponse \<Longrightarrow>
     load_batch store i b batch s =
       s\<lparr>calls := Suc (Suc (calls s)),
          events := events s @ [Insert First batch, Print (Insert_failed (i div b + 1)),
            Print Retrying, Sleep 3, Insert Retry batch,
            Print (if store (Suc (calls s)) = Raised then Retry_failed else Retry_success)]\<rparr>"
  by (simp add: load_batch_def insert_call_def say_def sleep_def Let_def split: outcome.splits)

text \<open>
  C4.  Three rows in batches of two, with a store whose first call raises: the first batch
  is inserted once, the line of the handler is printed, and the second batch follows.  The
  batch that failed is not retried, and later batches are not blocked.
\<close>

theorem raised_insert_is_not_retried:
  "load_to_supabase (\<lambda>k. if k = 0 then Raised else Inserted) [1::nat, 2, 3] 2 =
     Inr \<lparr>calls = 2,
          events = [Print (Loading 3 2), Insert First [1, 2], Print Retry_failed,
                    Insert First [3], Print (Inserted_batch 2), Print Load_complete]\<rparr>"
  by code_simp

section \<open>The city with the highest mean\<close>

lemma argmax_first_mem: "argmax_first b xs \<in> set (b # xs)"
  by (induction xs arbitrary: b) auto

lemma argmax_first_ge: "snd b \<le> snd (argmax_first b xs)"
proof (induction xs arbitrary: b)
  case Nil
  show ?case by simp
next
  case (Cons x xs)
  have "snd b \<le> snd (if snd b < snd x then x else b)" by simp
  also have "\<dots> \<le> snd (argmax_first (if snd b < snd x then x else b) xs)"
    by (rule Cons.IH)
  finally show ?case by simp
qed

lemma argmax_first_max: "y \<in> set xs \<Longrightarrow> snd y \<le> snd (argmax_first b xs)"
proof (induction xs arbitrary: b)
  case Nil
  then show ?case by simp
next
  case (Cons x xs)
  let ?b = "if snd b < snd x then x else b"
  show ?case
  proof (cases "y = x")
    case True
    have "snd x \<le> snd ?b" by simp
    also have "\<dots> \<le> snd (argmax_first ?b xs)" by (rule argmax_first_ge)
    finally show ?thesis using True by simp
  next
    case False
    with Cons.prems have "y \<in> set xs" by simp
    from Cons.IH [OF this, of ?b] show ?thesis by simp
  qed
qed

lemma argmax_first_keeps: "snd (argmax_first b xs) = snd b \<Longrightarrow> argmax_first b xs = b"
proof (induction xs arbitrary: b)
  case Nil
  show ?case by simp
next
  case (Cons x xs)
  let ?b = "if snd b < snd x then x else b"
  from Cons.prems have e: "snd (argmax_first ?b xs) = snd b" by simp
  have "snd ?b \<le> snd (argmax_first ?b xs)" by (rule argmax_first_ge)
  with e have "\<not> snd b < snd x" by (auto split: if_splits)
  then have b: "?b = b" by simp
  with e Cons.IH [of b] show ?case by simp
qed

lemma argmax_first_least:
  "sorted (map fst (b # xs)) \<Longrightarrow> y \<in> set (b # xs) \<Longrightarrow>
     snd y = snd (argmax_first b xs) \<Longrightarrow> fst (argmax_first b xs) \<le> fst y"
proof (induction xs arbitrary: b)
  case Nil
  then show ?case by simp
next
  case (Cons x xs)
  let ?b = "if snd b < snd x then x else b"
  have s: "sorted (map fst (?b # xs))"
    using Cons.prems(1) by auto
  have bx: "fst b \<le> fst x"
    using Cons.prems(1) by simp
  have e: "snd y = snd (argmax_first ?b xs)"
    using Cons.prems(3) by simp
  show ?case
  proof (cases "y \<in> set (?b # xs)")
    case True
    from Cons.IH [OF s True e] show ?thesis by simp
  next
    case False
    with Cons.prems(2) have "y = b \<or> y = x" by auto
    then show ?thesis
    proof
      assume y: "y = b"
      with e have "argmax_first b (x # xs) = b"
        by (intro argmax_first_keeps) simp
      with y show ?thesis by simp
    next
      assume y: "y = x"
      with False have nb: "?b = b" by (auto split: if_splits)
      then have "snd x \<le> snd b" by (auto split: if_splits)
      moreover have "snd b \<le> snd (argmax_first b (x # xs))" by (rule argmax_first_ge)
      ultimately have "snd (argmax_first b (x # xs)) = snd b"
        using e y nb by simp
      then have "argmax_first b (x # xs) = b" by (rule argmax_first_keeps)
      with bx y show ?thesis by simp
    qed
  qed
qed

lemma dropna_series_keys: "(k, v) \<in> set (dropna_series s) \<Longrightarrow> k \<in> fst ` set s"
  by (induction s rule: dropna_series.induct) force+

lemma sorted_dropna_series: "sorted (map fst s) \<Longrightarrow> sorted (map fst (dropna_series s))"
proof (induction s rule: dropna_series.induct)
  case 1
  show ?case by simp
next
  case (2 k v s)
  then show ?case by (auto dest!: dropna_series_keys)
qed simp_all

lemma sorted_groupby_mean: "sorted (map fst (groupby_mean col df))"
  by (simp add: groupby_mean_def comp_def)

lemma idxmax_first_max:
  assumes "sorted (map fst (b # xs))"
  shows "idxmax (b # xs) = Inr (fst (argmax_first b xs)) \<and>
         first_max (b # xs) (fst (argmax_first b xs))"
proof -
  let ?r = "argmax_first b xs"
  have "(fst ?r, snd ?r) \<in> set (b # xs)"
    using argmax_first_mem [of b xs] by simp
  moreover have "m' \<le> snd ?r \<and> (m' = snd ?r \<longrightarrow> fst ?r \<le> c')"
    if "(c', m') \<in> set (b # xs)" for c' m'
  proof
    show "m' \<le> snd ?r"
      using that argmax_first_max [of "(c', m')" xs b] argmax_first_ge [of b xs] by auto
    show "m' = snd ?r \<longrightarrow> fst ?r \<le> c'"
      using that argmax_first_least [OF assms, of "(c', m')"] by auto
  qed
  ultimately have "first_max (b # xs) (fst ?r)"
    unfolding first_max_def by blast
  then show ?thesis by (simp add: idxmax_def)
qed

lemma select_city:
  assumes "sorted (map fst s)"
  shows "\<exists>c m. (if s \<noteq> []
                 then and_then (idxmax s) (\<lambda>c.
                      and_then (series_max s) (\<lambda>m. Inr (Some c, Some m)))
                 else Inr (None, None)) = Inr (c, m) \<and>
               (case c of None \<Rightarrow> s = [] | Some c \<Rightarrow> first_max s c)"
proof (cases s)
  case Nil
  then show ?thesis by simp
next
  case (Cons b xs)
  with assms idxmax_first_max [of b xs] show ?thesis
    by (simp add: series_max_def)
qed

text \<open>
  C8.  \<^verbatim>\<open>compute_kpis\<close> returns, and the city it selects for the highest mean PM2.5, and
  likewise for the highest mean severity, is the first maximum of the series of means: a
  tie goes to the first of the tied cities in ascending name order.  No city is selected
  only when the series is empty.
\<close>

theorem highest_mean_city_first_in_name_order:
  "\<exists>k. compute_kpis df = Inr k \<and>
     (case city_highest_avg_pm2_5 k of
        None \<Rightarrow> dropna_series (groupby_mean row_pm2_5 df) = []
      | Some c \<Rightarrow> first_max (dropna_series (groupby_mean row_pm2_5 df)) c) \<and>
     (case city_highest_severity k of
        None \<Rightarrow> dropna_series (groupby_mean row_severity_score df) = []
      | Some c \<Rightarrow> first_max (dropna_series (groupby_mean row_severity_score df)) c)"
proof -
  let ?p = "dropna_series (groupby_mean row_pm2_5 df)"
  let ?s = "dropna_series (groupby_mean row_severity_score df)"
  have "sorted (map fst ?p)" "sorted (map fst ?s)"
    by (simp_all add: sorted_dropna_series sorted_groupby_mean)
  from select_city [OF this(1)] select_city [OF this(2)]
  obtain c1 m1 c2 m2 where
    1: "(if ?p \<noteq> [] then and_then (idxmax ?p) (\<lambda>c.
            and_then (series_max ?p) (\<lambda>m. Inr (Some c, Some m)))
         else Inr (None, None)) = Inr (c1, m1)"
       "case c1 of None \<Rightarrow> ?p = [] | Some c \<Rightarrow> first_max ?p c"
    and 2: "(if ?s \<noteq> [] then and_then (idxmax ?s) (\<lambda>c.
            and_then (series_max ?s) (\<lambda>m. Inr (Some c, Some m)))
         else Inr (None, None)) = Inr (c2, m2)"
       "case c2 of None \<Rightarrow> ?s = [] | Some c \<Rightarrow> first_max ?s c"
    by blast
  have "compute_kpis df = Inr \<lparr>city_highest_avg_pm2_5 = c1, highest_avg_pm2_5_value = m1,
           city_highest_severity = c2, highest_severity_value = m2\<rparr>"
    unfolding compute_kpis_def Let_def by (simp only: 1(1) 2(1) and_then_simps prod.case)
  with 1(2) 2(2) show ?thesis by simp
qed

theorem highest_mean_city_first_in_name_order_witness:
  "\<exists>k. compute_kpis tie_rows = Inr k \<and>
     city_highest_avg_pm2_5 k = Some ''Delhi'' \<and> city_highest_severity k = Some ''Delhi'' \<and>
     first_max (dropna_series (groupby_mean row_pm2_5 tie_rows)) ''Delhi'' \<and>
     first_max (dropna_series (groupby_mean row_severity_score tie_rows)) ''Delhi''"
proof -
  from highest_mean_city_first_in_name_order [of tie_rows]
  obtain k where k: "compute_kpis tie_rows = Inr k"
    and p: "case city_highest_avg_pm2_5 k of
        None \<Rightarrow> dropna_series (groupby_mean row_pm2_5 tie_rows) = []
      | Some c \<Rightarrow> first_max (dropna_series (groupby_mean row_pm2_5 tie_rows)) c"
    and s: "case city_highest_severity k of
        None \<Rightarrow> dropna_series (groupby_mean row_severity_score tie_rows) = []
      | Some c \<Rightarrow> first_max (dropna_series (groupby_mean row_severity_score tie_rows)) c"
    by blast
  have "map_sum id city_highest_avg_pm2_5 (compute_kpis tie_rows) = Inr (Some ''Delhi'')"
    "map_sum id city_highest_severity (compute_kpis tie_rows) = Inr (Some ''Delhi'')"
    by code_simp+
  with k have c: "city_highest_avg_pm2_5 k = Some ''Delhi''" "city_highest_severity k = Some ''Delhi''"
    by simp_all
  with k p s show ?thesis by simp
qed

end
